theory Spec2Isabelle
  imports Main "HOL-Library.Sublist" "HOL-Library.AList"
begin

section \<open>Python values\<close>

text \<open>
  A Python \<open>str\<close> is a sequence of Unicode code points, so a string is a list of
  natural numbers; \<open>len\<close> and slicing count code points. \<open>asc\<close> embeds an ASCII
  literal. The substring test \<open>w in s\<close> on strings is \<open>sublist w s\<close>, and
  \<open>s.startswith(w)\<close> is \<open>prefix w s\<close>.
\<close>

type_synonym pystr = "nat list"

definition asc :: "string \<Rightarrow> pystr" where
  "asc s = map of_char s"

text \<open>
  The records the validators inspect are dictionaries of JSON values: \<open>None\<close>,
  booleans, integers, strings, lists and dictionaries with string keys. A dictionary
  keeps its insertion order (\<open>json.dumps\<close> prints it in that order), so it is an
  association list; \<open>d[k] = v\<close> is \<open>AList.update k v d\<close>, which replaces the value
  of a key that is present and appends a new key at the end. Floating-point values
  are left out of the value type.
\<close>

datatype pyval =
    PNone
  | PBool bool
  | PInt int
  | PStr pystr
  | PList "pyval list"
  | PDict "(pystr \<times> pyval) list"

type_synonym pydict = "(pystr \<times> pyval) list"

text \<open>
  The exceptions the code can raise. \<open>InvalidURL\<close> is the \<open>ValueError\<close> of
  \<open>urlparse\<close>; \<open>VerificationFailed errors preview\<close> is the \<open>ValueError\<close> the
  strict middleware raises, whose message is built from the error list and the
  preview of the record.
\<close>

datatype py_error =
    TypeError
  | AttributeError
  | InvalidURL
  | VerificationFailed "pystr list" pystr

text \<open>\<open>d.get(k, default)\<close>, \<open>d.get(k)\<close> and \<open>k in d\<close> on a dictionary.\<close>

definition dict_get :: "pydict \<Rightarrow> pystr \<Rightarrow> pyval \<Rightarrow> pyval" where
  "dict_get d k dflt = (case map_of d k of None \<Rightarrow> dflt | Some v \<Rightarrow> v)"

definition dict_get_none :: "pydict \<Rightarrow> pystr \<Rightarrow> pyval" where
  "dict_get_none d k = dict_get d k PNone"

definition has_key :: "pydict \<Rightarrow> pystr \<Rightarrow> bool" where
  "has_key d k = (map_of d k \<noteq> None)"

text \<open>Truth value of an object, as \<open>if x\<close>, \<open>not x\<close>, \<open>bool(x)\<close> and \<open>any\<close> read it.\<close>

fun truthy :: "pyval \<Rightarrow> bool" where
  "truthy PNone = False"
| "truthy (PBool b) = b"
| "truthy (PInt i) = (i \<noteq> 0)"
| "truthy (PStr s) = (s \<noteq> [])"
| "truthy (PList xs) = (xs \<noteq> [])"
| "truthy (PDict kvs) = (kvs \<noteq> [])"

text \<open>
  \<open>pattern in x\<close> for a string \<open>pattern\<close>: a substring test on a string, a membership
  test on a list, a key test on a dictionary, and a \<open>TypeError\<close> on \<open>None\<close>, a
  boolean or a number.
\<close>

fun py_in :: "pystr \<Rightarrow> pyval \<Rightarrow> py_error + bool" where
  "py_in w (PStr s) = Inr (sublist w s)"
| "py_in w (PList xs) = Inr (PStr w \<in> set xs)"
| "py_in w (PDict kvs) = Inr (w \<in> fst ` set kvs)"
| "py_in w PNone = Inl TypeError"
| "py_in w (PBool b) = Inl TypeError"
| "py_in w (PInt i) = Inl TypeError"

subsection \<open>\<open>json.dumps(data, ensure_ascii=False)\<close>\<close>

text \<open>Decimal digits of a natural number (\<open>repr\<close> of a non-negative \<open>int\<close>).\<close>

function dec :: "nat \<Rightarrow> pystr" where
  "dec n = (if n < 10 then [48 + n] else dec (n div 10) @ [48 + n mod 10])"
  by pat_completeness auto
termination
  by (relation "measure id") auto

declare dec.simps [simp del]

text \<open>
  The encoder's escape table: backslash and the double quote get a backslash, the
  control characters below U+0020 their short escape or \<open>\u00XX\<close>; with
  \<open>ensure_ascii=False\<close> every other character is written as it is.
\<close>

definition hex_digit :: "nat \<Rightarrow> nat" where
  "hex_digit d = (if d < 10 then 48 + d else 87 + d)"

definition escape_char :: "nat \<Rightarrow> pystr" where
  "escape_char c =
     (if c = 92 then [92, 92]
      else if c = 34 then [92, 34]
      else if c = 8 then [92, 98]
      else if c = 12 then [92, 102]
      else if c = 10 then [92, 110]
      else if c = 13 then [92, 114]
      else if c = 9 then [92, 116]
      else if c < 32 then [92, 117, 48, 48, hex_digit (c div 16), hex_digit (c mod 16)]
      else [c])"

definition encode_basestring :: "pystr \<Rightarrow> pystr" where
  "encode_basestring s = [34] @ concat (map escape_char s) @ [34]"

text \<open>The default separators are \<open>', '\<close> between items and \<open>': '\<close> after a key.\<close>

fun json_dumps :: "pyval \<Rightarrow> pystr"
  and dumps_items :: "pyval list \<Rightarrow> pystr"
  and dumps_pairs :: "(pystr \<times> pyval) list \<Rightarrow> pystr" where
  "json_dumps PNone = asc ''null''"
| "json_dumps (PBool b) = (if b then asc ''true'' else asc ''false'')"
| "json_dumps (PInt i) = (if i < 0 then asc ''-'' @ dec (nat (- i)) else dec (nat i))"
| "json_dumps (PStr s) = encode_basestring s"
| "json_dumps (PList xs) = asc ''['' @ dumps_items xs @ asc '']''"
| "json_dumps (PDict kvs) = asc ''{'' @ dumps_pairs kvs @ asc ''}''"
| "dumps_items [] = []"
| "dumps_items [x] = json_dumps x"
| "dumps_items (x # y # ys) = json_dumps x @ asc '', '' @ dumps_items (y # ys)"
| "dumps_pairs [] = []"
| "dumps_pairs [(k, v)] = encode_basestring k @ asc '': '' @ json_dumps v"
| "dumps_pairs ((k, v) # p # ps) =
     encode_basestring k @ asc '': '' @ json_dumps v @ asc '', '' @ dumps_pairs (p # ps)"

section \<open>The verification middleware\<close>

subsection \<open>String constants of \<open>verification_middleware.py\<close>\<close>

text \<open>
  The Chinese literals of the source, as code points. In the order of the list:
  U+6587 U+521B U+54C1 U+724C; U+6587 U+65C5 U+7EFC U+5408 U+4F53;
  U+975E U+9057 U+6D3B U+5316; U+6570 U+5B57 U+6587 U+521B;
  U+6587 U+521B U+8857 U+533A; the two placeholders; U+67D0; U+793A U+4F8B;
  U+6D4B U+8BD5.
\<close>

definition template_patterns :: "pystr list" where
  "template_patterns =
     [[25991, 21019, 21697, 29260],
      [25991, 26053, 32508, 21512, 20307],
      [38750, 36951, 27963, 21270],
      [25968, 23383, 25991, 21019],
      [25991, 21019, 34903, 21306],
      asc ''{city}'',
      asc ''{region}'',
      [26576],
      [31034, 20363],
      [27979, 35797]]"

text \<open>
  The hedging words: U+53EF U+80FD; U+5927 U+6982; U+4E5F U+8BB8; U+4F30 U+8BA1;
  U+5E94 U+8BE5; U+636E U+8BF4.
\<close>

definition vague_words :: "pystr list" where
  "vague_words =
     [[21487, 33021], [22823, 27010], [20063, 35768],
      [20272, 35745], [24212, 35813], [25454, 35828]]"

text \<open>
  The unit markers U+4E07 and U+4EBF of a KPI value, the source marker
  U+6765 U+6E90, and the policy marker U+653F U+7B56.
\<close>

definition unit_wan :: pystr where
  "unit_wan = [19975]"

definition unit_yi :: pystr where
  "unit_yi = [20159]"

definition mark_laiyuan :: pystr where
  "mark_laiyuan = [26469, 28304]"

definition mark_zhengce :: pystr where
  "mark_zhengce = [25919, 31574]"

text \<open>The messages, each the f-string of the source with its argument spliced in.\<close>

definition template_msg :: "pystr \<Rightarrow> pystr" where
  "template_msg pattern =
     [30097, 20284, 65, 73, 29983, 25104, 47, 27169, 26495, 25968, 25454, 58, 32,
      21253, 21547, 39] @ pattern @ [39]"

definition vague_msg :: "pystr \<Rightarrow> pystr" where
  "vague_msg word = [21253, 21547, 27169, 31946, 34920, 36848, 58, 32, 39] @ word @ [39]"

definition kpi_msg :: "pystr \<Rightarrow> pystr" where
  "kpi_msg key =
     [75, 80, 73, 25968, 25454, 39] @ key @ [39, 32570, 23569, 26469, 28304, 26631, 27880]"

definition missing_field_msg :: "pystr \<Rightarrow> pystr" where
  "missing_field_msg field = [32570, 23569, 24517, 22635, 23383, 27573, 58, 32] @ field"

definition policy_msg :: pystr where
  "policy_msg =
     [25919, 31574, 25991, 20214, 24517, 39035, 25552, 20379, 25991, 21495, 25110,
      26469, 28304, 38142, 25509]"

definition no_source_msg :: pystr where
  "no_source_msg = [32570, 23569, 25968, 25454, 26469, 28304, 20449, 24687]"

definition bad_url_msg :: pystr where
  "bad_url_msg = [26469, 28304, 85, 82, 76, 26684, 24335, 38169, 35823]"

subsection \<open>The checks\<close>

text \<open>What a check returns: the dictionary \<open>{'errors': ..., 'warnings': ...}\<close>.\<close>

record findings =
  f_errors :: "pystr list"
  f_warnings :: "pystr list"

text \<open>
  \<open>_check_hallucination\<close>. The three loops of the source, each a recursion over the
  list it walks with the list it appends to as accumulator. The first raises
  \<open>TypeError\<close> when the name is not a string, a list or a dictionary.
\<close>

fun scan_template :: "pyval \<Rightarrow> pystr list \<Rightarrow> pystr list \<Rightarrow> py_error + pystr list" where
  "scan_template name [] errors = Inr errors"
| "scan_template name (pattern # rest) errors =
     (case py_in pattern name of
        Inl e \<Rightarrow> Inl e
      | Inr found \<Rightarrow>
          scan_template name rest (if found then errors @ [template_msg pattern] else errors))"

fun scan_vague :: "pystr \<Rightarrow> pystr list \<Rightarrow> pystr list \<Rightarrow> pystr list" where
  "scan_vague data_str [] warnings = warnings"
| "scan_vague data_str (word # rest) warnings =
     scan_vague data_str rest
       (if sublist word data_str then warnings @ [vague_msg word] else warnings)"

fun scan_kpi :: "pystr \<Rightarrow> (pystr \<times> pyval) list \<Rightarrow> pystr list \<Rightarrow> pystr list" where
  "scan_kpi data_str [] warnings = warnings"
| "scan_kpi data_str ((key, val) # rest) warnings =
     scan_kpi data_str rest
       (case val of
          PStr s \<Rightarrow>
            if (sublist unit_wan s \<or> sublist unit_yi s)
               \<and> \<not> sublist mark_laiyuan data_str \<and> \<not> sublist (asc ''source'') data_str
            then warnings @ [kpi_msg key]
            else warnings
        | _ \<Rightarrow> warnings)"

definition check_hallucination :: "pydict \<Rightarrow> py_error + findings" where
  "check_hallucination data =
     (let name = dict_get data (asc ''name'') (dict_get data (asc ''title'') (PStr []))
      in case scan_template name template_patterns [] of
           Inl e \<Rightarrow> Inl e
         | Inr errors \<Rightarrow>
             (let data_str = json_dumps (PDict data);
                  warnings = scan_vague data_str vague_words [];
                  warnings' =
                    (if has_key data (asc ''kpi'')
                     then (case dict_get_none data (asc ''kpi'') of
                             PDict kpi \<Rightarrow> scan_kpi data_str kpi warnings
                           | _ \<Rightarrow> warnings)
                     else warnings)
              in Inr \<lparr>f_errors = errors, f_warnings = warnings'\<rparr>))"

text \<open>
  \<open>_check_required_fields\<close>. The test \<open>mark in data.get('category', '')\<close> is only
  reached when the record has a title, and raises \<open>TypeError\<close> on a category that
  is \<open>None\<close>, a boolean or a number.
\<close>

fun scan_required :: "pydict \<Rightarrow> pystr list \<Rightarrow> pystr list \<Rightarrow> pystr list" where
  "scan_required data [] errors = errors"
| "scan_required data (field # rest) errors =
     scan_required data rest
       (if \<not> truthy (dict_get_none data field) then errors @ [missing_field_msg field]
        else errors)"

definition check_required_fields :: "pydict \<Rightarrow> py_error + findings" where
  "check_required_fields data =
     (let errors =
            (if has_key data (asc ''category'')
             then scan_required data [asc ''name'', asc ''region'', asc ''category''] []
             else [])
      in if has_key data (asc ''title'')
         then (case py_in mark_zhengce (dict_get data (asc ''category'') (PStr [])) of
                 Inl e \<Rightarrow> Inl e
               | Inr is_policy \<Rightarrow>
                   Inr \<lparr>f_errors =
                          (if is_policy
                              \<and> \<not> truthy (dict_get_none data (asc ''doc_number''))
                              \<and> \<not> truthy (dict_get_none data (asc ''source_url''))
                           then errors @ [policy_msg]
                           else errors),
                        f_warnings = []\<rparr>)
         else Inr \<lparr>f_errors = errors, f_warnings = []\<rparr>)"

text \<open>
  \<open>_check_sources\<close>. \<open>source_url.startswith\<close> raises \<open>AttributeError\<close> on a truthy
  value that is not a string.
\<close>

definition check_sources :: "pydict \<Rightarrow> py_error + findings" where
  "check_sources data =
     (let has_source =
            (truthy (dict_get_none data (asc ''source_url''))
             \<or> truthy (dict_get_none data (asc ''sources''))
             \<or> dict_get_none data (asc ''type'') = PStr (asc ''real_brand'')
             \<or> truthy (dict_get_none data (asc ''verified'')));
          warnings = (if \<not> has_source then [no_source_msg] else []);
          source_url = dict_get data (asc ''source_url'') (PStr [])
      in if truthy source_url
         then (case source_url of
                 PStr s \<Rightarrow>
                   Inr \<lparr>f_errors =
                          (if \<not> (prefix (asc ''http://'') s \<or> prefix (asc ''https://'') s)
                           then [bad_url_msg] else []),
                        f_warnings = warnings\<rparr>
               | _ \<Rightarrow> Inl AttributeError)
         else Inr \<lparr>f_errors = [], f_warnings = warnings\<rparr>)"

subsection \<open>\<open>verify_data\<close>\<close>

text \<open>The verdict dictionary of \<open>verify_data\<close>; the level is one of three strings.\<close>

record verdict =
  passed :: bool
  level :: pystr
  errors :: "pystr list"
  warnings :: "pystr list"

definition verify_data :: "pydict \<Rightarrow> py_error + verdict" where
  "verify_data data =
     (case check_hallucination data of
        Inl e \<Rightarrow> Inl e
      | Inr hallucination_checks \<Rightarrow>
     (case (if has_key data (asc ''name'') \<or> has_key data (asc ''title'')
            then check_required_fields data
            else Inr \<lparr>f_errors = [], f_warnings = []\<rparr>) of
        Inl e \<Rightarrow> Inl e
      | Inr field_checks \<Rightarrow>
     (case check_sources data of
        Inl e \<Rightarrow> Inl e
      | Inr source_checks \<Rightarrow>
          (let errs = f_errors hallucination_checks @ f_errors field_checks
                        @ f_errors source_checks;
               warns = f_warnings hallucination_checks @ f_warnings field_checks
                         @ f_warnings source_checks
           in Inr \<lparr>passed = (length errs = 0),
                   level = (if errs \<noteq> [] then asc ''REJECTED''
                            else if warns \<noteq> [] then asc ''CONDITIONAL''
                            else asc ''A''),
                   errors = errs,
                   warnings = warns\<rparr>))))"

subsection \<open>The guarded call\<close>

text \<open>
  \<open>datetime.now().isoformat()\<close>: the clock is an input of the model, and the
  timestamp is its fields printed as \<open>%04d-%02d-%02dT%02d:%02d:%02d\<close>, followed by
  \<open>.%06d\<close> of the microseconds when they are not zero.
\<close>

record datetime =
  year :: nat
  month :: nat
  day :: nat
  hour :: nat
  minute :: nat
  second :: nat
  microsecond :: nat

definition zfill :: "nat \<Rightarrow> pystr \<Rightarrow> pystr" where
  "zfill width s = replicate (width - length s) 48 @ s"

definition isoformat :: "datetime \<Rightarrow> pystr" where
  "isoformat t =
     zfill 4 (dec (year t)) @ [45] @ zfill 2 (dec (month t)) @ [45] @ zfill 2 (dec (day t))
     @ [84] @ zfill 2 (dec (hour t)) @ [58] @ zfill 2 (dec (minute t)) @ [58]
     @ zfill 2 (dec (second t))
     @ (if microsecond t \<noteq> 0 then [46] @ zfill 6 (dec (microsecond t)) else [])"

text \<open>The state of a \<open>VerificationMiddleware\<close>; \<open>__init__\<close> switches strict mode on.\<close>

record middleware =
  validation_log :: "pyval list"
  strict_mode :: bool

definition init_middleware :: middleware where
  "init_middleware = \<lparr>validation_log = [], strict_mode = True\<rparr>"

text \<open>
  The two dictionaries the wrapper stores under the key \<open>_verification\<close> of the
  record.
\<close>

definition pending_tag :: "verdict \<Rightarrow> datetime \<Rightarrow> pyval" where
  "pending_tag validation_result now =
     PDict [(asc ''status'', PStr (asc ''PENDING'')),
            (asc ''errors'', PList (map PStr (errors validation_result))),
            (asc ''timestamp'', PStr (isoformat now))]"

definition verified_tag :: "verdict \<Rightarrow> datetime \<Rightarrow> pyval" where
  "verified_tag validation_result now =
     PDict [(asc ''status'', PStr (asc ''VERIFIED'')),
            (asc ''level'', PStr (level validation_result)),
            (asc ''timestamp'', PStr (isoformat now))]"

text \<open>
  \<open>validate_required(func)\<close> applied to the arguments \<open>args\<close>: the wrapper of the
  source. An exception of \<open>func\<close> or of \<open>verify_data\<close> propagates. The wrapper
  writes the tag into the dictionary \<open>func\<close> returned and returns that dictionary;
  the model returns the updated dictionary.
\<close>

definition validate_required ::
  "middleware \<Rightarrow> datetime \<Rightarrow> ('a \<Rightarrow> py_error + pyval) \<Rightarrow> 'a \<Rightarrow> py_error + pyval" where
  "validate_required self now func args =
     (case func args of
        Inl e \<Rightarrow> Inl e
      | Inr result \<Rightarrow>
          (case result of
             PDict d \<Rightarrow>
               (case verify_data d of
                  Inl e \<Rightarrow> Inl e
                | Inr validation_result \<Rightarrow>
                    if \<not> passed validation_result then
                      if strict_mode self then
                        Inl (VerificationFailed (errors validation_result)
                               (take 200 (json_dumps result)))
                      else
                        Inr (PDict (AList.update (asc ''_verification'')
                                      (pending_tag validation_result now) d))
                    else
                      Inr (PDict (AList.update (asc ''_verification'')
                                    (verified_tag validation_result now) d)))
           | _ \<Rightarrow> Inr result))"

section \<open>The cross validator\<close>

subsection \<open>Library functions: \<open>str.lower\<close> and \<open>urlparse\<close>\<close>

text \<open>
  Two functions of the Python runtime are called by \<open>cross_validator.py\<close>. Both are
  fixed on ASCII text; what they do beyond it rests on tables of the Unicode
  database, which are parameters of the model:
  \<^item> \<open>unicode_lower s i\<close> is the lower-case expansion of the non-ASCII character at
    index \<open>i\<close> of \<open>s\<close>;
  \<^item> \<open>host_accepted netloc\<close> says whether \<open>urlparse\<close> accepts a network location
    that holds a bracketed host or a non-ASCII character (the validation of an IP
    literal and the check of the NFKC normal form; a refusal is a \<open>ValueError\<close>).
\<close>

record pylib =
  unicode_lower :: "pystr \<Rightarrow> nat \<Rightarrow> pystr"
  host_accepted :: "pystr \<Rightarrow> bool"

fun lower_from :: "pylib \<Rightarrow> pystr \<Rightarrow> nat \<Rightarrow> pystr \<Rightarrow> pystr" where
  "lower_from lib s i [] = []"
| "lower_from lib s i (c # cs) =
     (if c < 128 then [if 65 \<le> c \<and> c \<le> 90 then c + 32 else c] else unicode_lower lib s i)
     @ lower_from lib s (Suc i) cs"

definition str_lower :: "pylib \<Rightarrow> pystr \<Rightarrow> pystr" where
  "str_lower lib s = lower_from lib s 0 s"

text \<open>
  \<open>urlparse(url).netloc\<close>, after \<open>urllib.parse.urlsplit\<close> of CPython 3.11: leading
  control characters and spaces are stripped, tabs and line breaks removed, a scheme (a letter followed
  by letters, digits, \<open>+\<close>, \<open>-\<close>, \<open>.\<close> up to the first colon) is split off, and when
  the rest starts with \<open>//\<close> the network location runs up to the first \<open>/\<close>, \<open>?\<close> or
  \<open>#\<close>. A network location with one square bracket but not the other raises
  \<open>ValueError\<close>. A URL without \<open>//\<close> has the empty network location.
\<close>

definition lstrip_c0 :: "pystr \<Rightarrow> pystr" where
  "lstrip_c0 url = dropWhile (\<lambda>c. c \<le> 32) url"

definition remove_unsafe :: "pystr \<Rightarrow> pystr" where
  "remove_unsafe url = filter (\<lambda>c. c \<noteq> 9 \<and> c \<noteq> 13 \<and> c \<noteq> 10) url"

definition ascii_alpha :: "nat \<Rightarrow> bool" where
  "ascii_alpha c = ((97 \<le> c \<and> c \<le> 122) \<or> (65 \<le> c \<and> c \<le> 90))"

definition scheme_char :: "nat \<Rightarrow> bool" where
  "scheme_char c = (ascii_alpha c \<or> (48 \<le> c \<and> c \<le> 57) \<or> c = 43 \<or> c = 45 \<or> c = 46)"

definition strip_scheme :: "pystr \<Rightarrow> pystr" where
  "strip_scheme url =
     (let pre = takeWhile (\<lambda>c. c \<noteq> 58) url
      in if length pre < length url \<and> 0 < length pre \<and> ascii_alpha (hd url)
            \<and> list_all scheme_char pre
         then drop (length pre + 1) url
         else url)"

definition splitnetloc :: "pystr \<Rightarrow> pystr" where
  "splitnetloc url = takeWhile (\<lambda>c. c \<noteq> 47 \<and> c \<noteq> 63 \<and> c \<noteq> 35) (drop 2 url)"

definition urlparse_netloc :: "pylib \<Rightarrow> pystr \<Rightarrow> py_error + pystr" where
  "urlparse_netloc lib url0 =
     (let url = strip_scheme (remove_unsafe (lstrip_c0 url0))
      in if take 2 url = [47, 47]
         then (let netloc = splitnetloc url
               in if (91 \<in> set netloc \<and> 93 \<notin> set netloc)
                     \<or> (93 \<in> set netloc \<and> 91 \<notin> set netloc)
                  then Inl InvalidURL
                  else if ((91 \<in> set netloc \<and> 93 \<in> set netloc)
                           \<or> \<not> list_all (\<lambda>c. c < 128) netloc)
                          \<and> \<not> host_accepted lib netloc
                  then Inl InvalidURL
                  else Inr netloc)
         else Inr [])"

text \<open>
  A library whose tables leave every non-ASCII character as it is and accept every
  host. On ASCII URLs without square brackets the tables are never consulted.
\<close>

definition ascii_lib :: pylib where
  "ascii_lib = \<lparr>unicode_lower = (\<lambda>s i. [s ! i]), host_accepted = (\<lambda>netloc. True)\<rparr>"

subsection \<open>\<open>check_source_independence\<close>\<close>

text \<open>
  A source is a dictionary of string fields (\<open>url\<close>, \<open>type\<close>). The result lists the
  distinct domains in the order of a Python set, which is not fixed: the model
  keeps them as a set.
\<close>

type_synonym source = "(pystr \<times> pystr) list"

definition source_get :: "source \<Rightarrow> pystr \<Rightarrow> pystr \<Rightarrow> pystr" where
  "source_get src k dflt = (case map_of src k of None \<Rightarrow> dflt | Some v \<Rightarrow> v)"

fun collect_domains :: "pylib \<Rightarrow> source list \<Rightarrow> pystr list \<Rightarrow> py_error + pystr list" where
  "collect_domains lib [] domains = Inr domains"
| "collect_domains lib (src # rest) domains =
     (case urlparse_netloc lib (source_get src (asc ''url'') []) of
        Inl e \<Rightarrow> Inl e
      | Inr domain \<Rightarrow> collect_domains lib rest (domains @ [domain]))"

record independence =
  is_independent :: bool
  unique_domains :: "pystr set"
  total_sources :: nat

definition check_source_independence :: "pylib \<Rightarrow> source list \<Rightarrow> py_error + independence" where
  "check_source_independence lib sources =
     (case collect_domains lib sources [] of
        Inl e \<Rightarrow> Inl e
      | Inr domains \<Rightarrow>
          (let unique = set domains
           in Inr \<lparr>is_independent = (2 \<le> card unique),
                   unique_domains = unique,
                   total_sources = length sources\<rparr>))"

subsection \<open>\<open>check_source_credibility\<close>\<close>

definition credibility_levels :: "(pystr \<times> pystr list) list" where
  "credibility_levels =
     [(asc ''A'', [asc ''tmall.com'', asc ''jd.com'', asc ''gov.cn'']),
      (asc ''B'', [asc ''36kr.com'', asc ''huxiu.com'', asc ''sina.com.cn'', asc ''qq.com'']),
      (asc ''C'', [asc ''xiaohongshu.com'', asc ''douyin.com'', asc ''zhihu.com''])]"

fun first_level :: "(pystr \<times> pystr list) list \<Rightarrow> pystr \<Rightarrow> pystr" where
  "first_level [] domain = asc ''D''"
| "first_level ((lvl, domains) # rest) domain =
     (if list_ex (\<lambda>d. sublist d domain) domains then lvl else first_level rest domain)"

definition check_source_credibility :: "pylib \<Rightarrow> pystr \<Rightarrow> py_error + pystr" where
  "check_source_credibility lib url =
     (case urlparse_netloc lib url of
        Inl e \<Rightarrow> Inl e
      | Inr netloc \<Rightarrow> Inr (first_level credibility_levels (str_lower lib netloc)))"

subsection \<open>\<open>validate_brand_cross\<close>\<close>

text \<open>
  The forbidden patterns of \<open>validation_rules['brand']\<close>: U+6587 U+521B U+54C1 U+724C;
  U+6587 U+65C5 U+7EFC U+5408 U+4F53; U+975E U+9057 U+6D3B U+5316.
\<close>

definition forbidden_patterns :: "pystr list" where
  "forbidden_patterns =
     [[25991, 21019, 21697, 29260],
      [25991, 26053, 32508, 21512, 20307],
      [38750, 36951, 27963, 21270]]"

text \<open>
  The result dictionaries of the two validators share \<open>is_valid\<close> and \<open>checks\<close>; the
  checks keep the order in which they are entered.
\<close>

record cross_result =
  is_valid :: bool
  checks :: "(pystr \<times> bool) list"

record brand_result = cross_result +
  brand :: pystr
  domain_analysis :: independence
  credibility_scores :: "pystr list"

record policy_result = cross_result +
  title :: pyval

fun collect_scores :: "pylib \<Rightarrow> source list \<Rightarrow> pystr list \<Rightarrow> py_error + pystr list" where
  "collect_scores lib [] scores = Inr scores"
| "collect_scores lib (src # rest) scores =
     (case check_source_credibility lib (source_get src (asc ''url'') []) of
        Inl e \<Rightarrow> Inl e
      | Inr score \<Rightarrow> collect_scores lib rest (scores @ [score]))"

definition validate_brand_cross ::
  "pylib \<Rightarrow> pystr \<Rightarrow> source list \<Rightarrow> py_error + brand_result" where
  "validate_brand_cross lib brand_name sources =
     (let source_count = (2 \<le> length sources)
      in case check_source_independence lib sources of
           Inl e \<Rightarrow> Inl e
         | Inr independence \<Rightarrow>
        (case collect_scores lib sources [] of
           Inl e \<Rightarrow> Inl e
         | Inr scores \<Rightarrow>
             (let has_credible = list_ex (\<lambda>s. s \<in> set [asc ''A'', asc ''B'']) scores;
                  not_template = (\<not> list_ex (\<lambda>p. sublist p brand_name) forbidden_patterns);
                  cks = [(asc ''source_count'', source_count),
                         (asc ''independence'', is_independent independence),
                         (asc ''has_credible_source'', has_credible),
                         (asc ''not_template'', not_template)]
              in Inr \<lparr>is_valid = list_all snd cks,
                      checks = cks,
                      brand = brand_name,
                      domain_analysis = independence,
                      credibility_scores = scores\<rparr>)))"

subsection \<open>\<open>validate_policy_cross\<close>\<close>

text \<open>
  The stock phrases of a policy title: U+5173 U+4E8E followed by U+4FC3 U+8FDB,
  U+52A0 U+5FEB, U+63A8 U+52A8 and U+652F U+6301.
\<close>

definition policy_title_patterns :: "pystr list" where
  "policy_title_patterns =
     [[20851, 20110, 20419, 36827], [20851, 20110, 21152, 24555],
      [20851, 20110, 25512, 21160], [20851, 20110, 25903, 25345]]"

text \<open>
  \<open>x[:40]\<close>: a slice of a string or a list, an exception on any other value
  (\<open>TypeError\<close>; on a dictionary newer Python versions raise \<open>KeyError\<close>, which the
  model does not tell apart).
\<close>

fun slice40 :: "pyval \<Rightarrow> py_error + pyval" where
  "slice40 (PStr s) = Inr (PStr (take 40 s))"
| "slice40 (PList xs) = Inr (PList (take 40 xs))"
| "slice40 x = Inl TypeError"

text \<open>\<open>all(p in t for p in ps)\<close>, which stops at the first pattern that is absent.\<close>

fun all_in :: "pystr list \<Rightarrow> pyval \<Rightarrow> py_error + bool" where
  "all_in [] t = Inr True"
| "all_in (p # ps) t =
     (case py_in p t of
        Inl e \<Rightarrow> Inl e
      | Inr found \<Rightarrow> if found then all_in ps t else Inr False)"

text \<open>
  \<open>source_url.lower()\<close> raises \<open>AttributeError\<close> on a truthy value that is not a
  string. \<open>is_valid\<close> is read back from the two checks just stored.
\<close>

definition validate_policy_cross :: "pylib \<Rightarrow> pydict \<Rightarrow> py_error + policy_result" where
  "validate_policy_cross lib policy_data =
     (case slice40 (dict_get policy_data (asc ''title'') (PStr [])) of
        Inl e \<Rightarrow> Inl e
      | Inr short_title \<Rightarrow>
          (let doc_number = dict_get policy_data (asc ''doc_number'') (PStr []);
               has_doc_number = truthy doc_number;
               source_url = dict_get policy_data (asc ''source_url'') (PStr []);
               has_source_url = truthy source_url
           in case (if truthy source_url
                    then (case source_url of
                            PStr s \<Rightarrow> Inr (sublist (asc ''gov.cn'') (str_lower lib s))
                          | _ \<Rightarrow> Inl AttributeError)
                    else Inr False) of
                Inl e \<Rightarrow> Inl e
              | Inr is_gov \<Rightarrow>
             (case all_in (take 2 policy_title_patterns)
                     (dict_get policy_data (asc ''title'') (PStr [])) of
                Inl e \<Rightarrow> Inl e
              | Inr both \<Rightarrow>
                  Inr \<lparr>is_valid = (has_doc_number \<or> is_gov),
                        checks = [(asc ''has_doc_number'', has_doc_number),
                                  (asc ''has_source_url'', has_source_url),
                                  (asc ''is_gov_source'', is_gov),
                                  (asc ''not_template'', \<not> both)],
                        title = short_title\<rparr>)))"

section \<open>Example records\<close>

text \<open>
  Two records of the demonstration at the end of \<open>verification_middleware.py\<close>: a
  brand whose name holds the template phrase U+6587 U+521B U+54C1 U+724C, and a brand
  with a KPI figure and no source.
\<close>

definition demo_template :: pydict where
  "demo_template =
     [(asc ''name'', PStr [21271, 20140, 25991, 21019, 21697, 29260]),
      (asc ''region'', PStr [21271, 20140, 24066]),
      (asc ''category'', PStr [25991, 21019, 73, 80])]"

definition demo_kpi :: pydict where
  "demo_kpi =
     [(asc ''name'', PStr [27873, 27873, 29595, 29305]),
      (asc ''region'', PStr [21271, 20140, 24066]),
      (asc ''category'', PStr [28526, 29609, 30450, 30418]),
      (asc ''kpi'', PDict [(asc ''revenue'', PStr [49, 48, 20159, 43])]),
      (asc ''type'', PStr (asc ''real_brand''))]"

text \<open>A record with a category and neither a name nor a title; its region is empty.\<close>

definition demo_nameless :: pydict where
  "demo_nameless = [(asc ''category'', PStr [25991, 21019, 73, 80]), (asc ''region'', PStr [])]"




definition url_path_gov :: pystr where
  "url_path_gov = asc ''https://example.com/gov.cn/notice.html''"


text \<open>A policy with a document number only, and one whose URL holds \<open>gov.cn\<close> in its path.\<close>

definition demo_policy_doc :: pydict where
  "demo_policy_doc =
     [(asc ''title'', PStr ([20851, 20110, 20419, 36827] @ asc '' 2021'')),
      (asc ''doc_number'', PStr (asc ''2021-15''))]"

definition demo_policy_path :: pydict where
  "demo_policy_path =
     [(asc ''title'', PStr (asc ''Notice'')),
      (asc ''source_url'', PStr url_path_gov)]"

text \<open>The brand of the first example of \<open>cross_validator.py\<close>: U+6545 U+5BAB U+6DD8 U+5B9D.\<close>

definition brand_forbidden_city :: pystr where
  "brand_forbidden_city = [25925, 23467, 28120, 23453]"

text \<open>
  A clock reading, an operation that returns a given value, and the middleware of
  the demonstration, with strict mode switched off.
\<close>

definition demo_now :: datetime where
  "demo_now = \<lparr>year = 2024, month = 5, day = 17, hour = 9, minute = 30, second = 5,
                microsecond = 120\<rparr>"

definition returning :: "pyval \<Rightarrow> unit \<Rightarrow> py_error + pyval" where
  "returning x u = Inr x"

definition permissive :: middleware where
  "permissive = init_middleware\<lparr>strict_mode := False\<rparr>"

text \<open>A record whose name is \<open>None\<close>, and one that already carries a \<open>_verification\<close> entry.\<close>

definition demo_null_name :: pydict where
  "demo_null_name = [(asc ''name'', PNone)]"

definition demo_tagged :: pydict where
  "demo_tagged =
     [(asc ''name'', PStr [25925, 23467, 28120, 23453]),
      (asc ''type'', PStr (asc ''real_brand'')),
      (asc ''_verification'', PStr (asc ''old''))]"

text \<open>Two pages of one shop, the second with the port of \<open>https\<close> written out.\<close>

definition url_shop :: pystr where
  "url_shop = asc ''https://gugong.tmall.com/shop''"

definition url_shop_port :: pystr where
  "url_shop_port = asc ''https://gugong.tmall.com:443/item''"

definition sources_one_host :: "source list" where
  "sources_one_host = [[(asc ''url'', url_shop)], [(asc ''url'', url_shop_port)]]"

text \<open>
  The KPI record of the demonstration, carrying a \<open>_verification\<close> entry of an earlier
  call that was refused: its error message U+6765 U+6E90 \<open>URL\<close> U+683C U+5F0F U+9519
  U+8BEF names the source.
\<close>

definition demo_stale :: pydict where
  "demo_stale =
     demo_kpi @
     [(asc ''_verification'',
         PDict [(asc ''status'', PStr (asc ''PENDING'')),
                (asc ''errors'', PList [PStr bad_url_msg]),
                (asc ''timestamp'', PStr (asc ''2024-05-16T08:00:00.000000''))])]"

section \<open>Notions used in the proofs\<close>

text \<open>The words \<open>_check_hallucination\<close> looks for in the serialised record.\<close>

definition scan_words :: "pystr list" where
  "scan_words = vague_words @ [mark_laiyuan, asc ''source'']"

text \<open>The characters of a timestamp: digits, colon, hyphen, full stop and \<open>T\<close>.\<close>

definition iso_char :: "nat \<Rightarrow> bool" where
  "iso_char c = ((48 \<le> c \<and> c \<le> 58) \<or> c = 45 \<or> c = 46 \<or> c = 84)"

text \<open>
  The host of a network location, as the \<open>hostname\<close> attribute of the result of
  \<open>urlparse\<close> reads it before lower-casing: what follows the last \<open>@\<close>, up to the
  first colon, or between the square brackets of an IP literal.
\<close>

definition netloc_host :: "pystr \<Rightarrow> pystr" where
  "netloc_host netloc =
     (let hostinfo = rev (takeWhile (\<lambda>c. c \<noteq> 64) (rev netloc))
      in if 91 \<in> set hostinfo
         then takeWhile (\<lambda>c. c \<noteq> 93) (drop 1 (dropWhile (\<lambda>c. c \<noteq> 91) hostinfo))
         else takeWhile (\<lambda>c. c \<noteq> 58) hostinfo)"

section \<open>Evaluation of the string constants\<close>

lemma level_names_distinct:
  "asc ''A'' \<noteq> asc ''CONDITIONAL''" "asc ''A'' \<noteq> asc ''REJECTED''"
  "asc ''CONDITIONAL'' \<noteq> asc ''REJECTED''" "asc ''CONDITIONAL'' \<noteq> asc ''A''"
  "asc ''REJECTED'' \<noteq> asc ''A''" "asc ''REJECTED'' \<noteq> asc ''CONDITIONAL''"
  by (simp_all add: asc_def)

lemmas eval_defs =
  asc_def dict_get_def dict_get_none_def has_key_def encode_basestring_def escape_char_def
  template_patterns_def vague_words_def unit_wan_def unit_yi_def mark_laiyuan_def
  mark_zhengce_def sublist_code

lemmas verify_defs =
  verify_data_def check_hallucination_def check_required_fields_def check_sources_def

lemma verify_demo_kpi:
  "verify_data demo_kpi =
     Inr \<lparr>passed = True, level = asc ''CONDITIONAL'', errors = [],
           warnings = [kpi_msg (asc ''revenue'')]\<rparr>"
  by (simp add: demo_kpi_def verify_defs eval_defs)

section \<open>The verdict of \<open>verify_data\<close>\<close>

text \<open>
  Claim C1. Whenever \<open>verify_data\<close> returns a verdict, its level is decided by its
  error and warning lists: the level is \<open>A\<close> exactly when both are empty,
  \<open>CONDITIONAL\<close> exactly when there are warnings and no errors, \<open>REJECTED\<close> exactly
  when there is an error; and the record passed exactly when there is no error, so
  warnings never block it.
\<close>

theorem verdict_level_invariant:
  "verify_data data = Inr v \<Longrightarrow>
     (level v = asc ''A'' \<longleftrightarrow> errors v = [] \<and> warnings v = []) \<and>
     (level v = asc ''CONDITIONAL'' \<longleftrightarrow> errors v = [] \<and> warnings v \<noteq> []) \<and>
     (level v = asc ''REJECTED'' \<longleftrightarrow> errors v \<noteq> []) \<and>
     (passed v \<longleftrightarrow> errors v = [])"
  unfolding verify_data_def Let_def
  by (auto split: sum.splits if_splits simp: level_names_distinct)

theorem verdict_level_invariant_witness:
  "\<exists>v. verify_data demo_kpi = Inr v \<and> level v = asc ''CONDITIONAL''
       \<and> errors v = [] \<and> warnings v \<noteq> [] \<and> passed v"
  using verdict_level_invariant [OF verify_demo_kpi] verify_demo_kpi by simp

section \<open>Records without a name or a title\<close>

lemma scan_required_acc:
  "scan_required data fs acc =
     acc @ map missing_field_msg (filter (\<lambda>f. \<not> truthy (dict_get_none data f)) fs)"
  by (induction fs arbitrary: acc) auto

lemma scan_template_empty_name: "scan_template (PStr []) template_patterns [] = Inr []"
  by (simp add: template_patterns_def asc_def)

lemma hallucination_no_name:
  assumes "\<not> has_key data (asc ''name'')" "\<not> has_key data (asc ''title'')"
  shows "\<exists>h. check_hallucination data = Inr h \<and> f_errors h = []"
  using assms
  by (simp add: check_hallucination_def has_key_def dict_get_def scan_template_empty_name Let_def)

lemma check_sources_errors:
  "check_sources data = Inr s \<Longrightarrow> set (f_errors s) \<subseteq> {bad_url_msg}"
  by (auto simp: check_sources_def Let_def split: if_splits pyval.splits)

lemma missing_field_msg_neq: "missing_field_msg field \<noteq> bad_url_msg"
  by (simp add: missing_field_msg_def bad_url_msg_def)

text \<open>
  Claim C10. A record with neither a \<open>name\<close> nor a \<open>title\<close> key never reaches the
  required-field check: the errors and warnings of its verdict are those of the
  hallucination and source checks alone, none of them a missing-field error, and
  \<open>verify_data\<close> fails only where the source check does. When such a record has a
  \<open>category\<close> key, \<open>_check_required_fields\<close> applied to it directly reports one error
  for each of \<open>name\<close>, \<open>region\<close>, \<open>category\<close> that is missing or empty, the one
  for \<open>name\<close> among them.
\<close>

theorem required_fields_skipped:
  assumes "\<not> has_key data (asc ''name'')" and "\<not> has_key data (asc ''title'')"
  shows "(\<forall>v. verify_data data = Inr v \<longrightarrow>
            (\<exists>h s. check_hallucination data = Inr h \<and> check_sources data = Inr s
                 \<and> errors v = f_errors h @ f_errors s
                 \<and> warnings v = f_warnings h @ f_warnings s)
            \<and> (\<forall>field. missing_field_msg field \<notin> set (errors v)))
       \<and> (\<forall>e. verify_data data = Inl e \<longleftrightarrow> check_sources data = Inl e)
       \<and> (has_key data (asc ''category'') \<longrightarrow>
            check_required_fields data =
              Inr \<lparr>f_errors = map missing_field_msg
                       (filter (\<lambda>f. \<not> truthy (dict_get_none data f))
                          [asc ''name'', asc ''region'', asc ''category'']),
                    f_warnings = []\<rparr>
            \<and> missing_field_msg (asc ''name'')
                \<in> set (map missing_field_msg
                       (filter (\<lambda>f. \<not> truthy (dict_get_none data f))
                          [asc ''name'', asc ''region'', asc ''category''])))"
proof -
  obtain h where h: "check_hallucination data = Inr h" "f_errors h = []"
    using hallucination_no_name [OF assms] by blast
  have noname: "\<not> truthy (dict_get_none data (asc ''name''))"
    using assms(1) by (simp add: has_key_def dict_get_none_def dict_get_def)
  have a: "\<forall>v. verify_data data = Inr v \<longrightarrow>
            (\<exists>h s. check_hallucination data = Inr h \<and> check_sources data = Inr s
                 \<and> errors v = f_errors h @ f_errors s
                 \<and> warnings v = f_warnings h @ f_warnings s)
            \<and> (\<forall>field. missing_field_msg field \<notin> set (errors v))"
  proof (intro allI impI)
    fix v assume v: "verify_data data = Inr v"
    then obtain s where s: "check_sources data = Inr s"
      and ev: "errors v = f_errors h @ f_errors s"
      and wv: "warnings v = f_warnings h @ f_warnings s"
      using assms h by (auto simp: verify_data_def Let_def split: sum.splits)
    have "set (errors v) \<subseteq> {bad_url_msg}"
      using check_sources_errors [OF s] ev h(2) by simp
    then have "\<forall>field. missing_field_msg field \<notin> set (errors v)"
      using missing_field_msg_neq by blast
    then show "(\<exists>h s. check_hallucination data = Inr h \<and> check_sources data = Inr s
                 \<and> errors v = f_errors h @ f_errors s
                 \<and> warnings v = f_warnings h @ f_warnings s)
            \<and> (\<forall>field. missing_field_msg field \<notin> set (errors v))"
      using h s ev wv by blast
  qed
  have b: "\<forall>e. verify_data data = Inl e \<longleftrightarrow> check_sources data = Inl e"
    using assms h by (auto simp: verify_data_def Let_def split: sum.splits)
  have c: "has_key data (asc ''category'') \<longrightarrow>
            check_required_fields data =
              Inr \<lparr>f_errors = map missing_field_msg
                       (filter (\<lambda>f. \<not> truthy (dict_get_none data f))
                          [asc ''name'', asc ''region'', asc ''category'']),
                    f_warnings = []\<rparr>
            \<and> missing_field_msg (asc ''name'')
                \<in> set (map missing_field_msg
                       (filter (\<lambda>f. \<not> truthy (dict_get_none data f))
                          [asc ''name'', asc ''region'', asc ''category'']))"
    using assms(2) noname
    by (simp add: check_required_fields_def scan_required_acc Let_def)
  from a b c show ?thesis by blast
qed

lemma verify_demo_nameless:
  "verify_data demo_nameless =
     Inr \<lparr>passed = True, level = asc ''CONDITIONAL'', errors = [], warnings = [no_source_msg]\<rparr>"
  by (simp add: demo_nameless_def verify_defs eval_defs)

lemma required_demo_nameless:
  "check_required_fields demo_nameless =
     Inr \<lparr>f_errors = [missing_field_msg (asc ''name''), missing_field_msg (asc ''region'')], f_warnings = []\<rparr>"
  by (simp add: demo_nameless_def check_required_fields_def eval_defs)

theorem required_fields_skipped_witness:
  "\<not> has_key demo_nameless (asc ''name'') \<and> \<not> has_key demo_nameless (asc ''title'')
   \<and> has_key demo_nameless (asc ''category'')
   \<and> (\<exists>v. verify_data demo_nameless = Inr v \<and> errors v = [])
   \<and> check_required_fields demo_nameless =
       Inr \<lparr>f_errors = [missing_field_msg (asc ''name''), missing_field_msg (asc ''region'')],
             f_warnings = []\<rparr>"
proof -
  have k: "\<not> has_key demo_nameless (asc ''name'')" "\<not> has_key demo_nameless (asc ''title'')"
    "has_key demo_nameless (asc ''category'')"
    by (simp_all add: demo_nameless_def has_key_def asc_def)
  from required_fields_skipped [OF k(1) k(2)] k verify_demo_nameless required_demo_nameless
  show ?thesis by simp
qed

section \<open>Credibility of a source\<close>

lemmas url_defs =
  urlparse_netloc_def lstrip_c0_def remove_unsafe_def strip_scheme_def splitnetloc_def
  scheme_char_def ascii_alpha_def Let_def




lemma netloc_path_gov: "urlparse_netloc lib url_path_gov = Inr (asc ''example.com'')"
  by (simp add: url_path_gov_def url_defs asc_def)


lemma lower_tmall: "str_lower lib (asc ''gugong.tmall.com'') = asc ''gugong.tmall.com''"
  by (simp add: str_lower_def asc_def)

lemma lower_path_gov: "str_lower lib url_path_gov = url_path_gov"
  by (simp add: str_lower_def url_path_gov_def asc_def)




lemma host_tmall: "netloc_host (asc ''gugong.tmall.com'') = asc ''gugong.tmall.com''"
  by (simp add: netloc_host_def asc_def)

lemma host_tmall_port: "netloc_host (asc ''gugong.tmall.com:443'') = asc ''gugong.tmall.com''"
  by (simp add: netloc_host_def asc_def)






section \<open>Independence of sources\<close>











section \<open>Cross validation of a brand\<close>

lemma netloc_shop: "urlparse_netloc lib url_shop = Inr (asc ''gugong.tmall.com'')"
  by (simp add: url_shop_def url_defs asc_def)

lemma netloc_shop_port: "urlparse_netloc lib url_shop_port = Inr (asc ''gugong.tmall.com:443'')"
  by (simp add: url_shop_port_def url_defs asc_def)

lemma shop_hosts_differ: "asc ''gugong.tmall.com'' \<noteq> asc ''gugong.tmall.com:443''"
  by (simp add: asc_def)

lemma credibility_shop: "check_source_credibility lib url_shop = Inr (asc ''A'')"
  by (simp add: check_source_credibility_def netloc_shop lower_tmall)
     (simp add: credibility_levels_def asc_def sublist_code)

lemma credibility_shop_port: "check_source_credibility lib url_shop_port = Inr (asc ''A'')"
  by (simp add: check_source_credibility_def netloc_shop_port)
     (simp add: credibility_levels_def str_lower_def asc_def sublist_code)

lemma independence_one_host:
  "check_source_independence lib sources_one_host =
     Inr \<lparr>is_independent = True,
           unique_domains = {asc ''gugong.tmall.com'', asc ''gugong.tmall.com:443''},
           total_sources = 2\<rparr>"
  using shop_hosts_differ
  by (simp add: check_source_independence_def sources_one_host_def source_get_def
        netloc_shop netloc_shop_port Let_def)

text \<open>
  Claim C3. The claim counts the distinct domains of the sources for the check
  \<open>independence\<close>. The code counts distinct network locations: the sources
  \<open>https://gugong.tmall.com/shop\<close> and \<open>https://gugong.tmall.com:443/item\<close> are on
  the one host \<open>gugong.tmall.com\<close>, and yet \<open>independence\<close> is true, as are the
  other three checks, and the brand is valid.
\<close>

theorem brand_one_host_accepted:
  "urlparse_netloc lib url_shop = Inr (asc ''gugong.tmall.com'')
   \<and> urlparse_netloc lib url_shop_port = Inr (asc ''gugong.tmall.com:443'')
   \<and> netloc_host (asc ''gugong.tmall.com'') = asc ''gugong.tmall.com''
   \<and> netloc_host (asc ''gugong.tmall.com:443'') = asc ''gugong.tmall.com''
   \<and> (\<exists>r. validate_brand_cross lib brand_forbidden_city sources_one_host = Inr r
         \<and> checks r =
             [(asc ''source_count'', True), (asc ''independence'', True),
              (asc ''has_credible_source'', True), (asc ''not_template'', True)]
         \<and> is_valid r)"
proof -
  have s: "collect_scores lib sources_one_host [] = Inr [asc ''A'', asc ''A'']"
    by (simp add: sources_one_host_def source_get_def credibility_shop credibility_shop_port)
  have t: "\<not> list_ex (\<lambda>p. sublist p brand_forbidden_city) forbidden_patterns"
    by (simp add: forbidden_patterns_def brand_forbidden_city_def sublist_code)
  have len: "length sources_one_host = 2"
    by (simp add: sources_one_host_def)
  have "\<exists>r. validate_brand_cross lib brand_forbidden_city sources_one_host = Inr r
         \<and> checks r =
             [(asc ''source_count'', True), (asc ''independence'', True),
              (asc ''has_credible_source'', True), (asc ''not_template'', True)]
         \<and> is_valid r"
    by (simp add: validate_brand_cross_def independence_one_host s t len Let_def)
  then show ?thesis
    using netloc_shop [of lib] netloc_shop_port [of lib] host_tmall host_tmall_port by simp
qed

section \<open>Cross validation of a policy\<close>

lemma all_in_str: "all_in ps (PStr t) = Inr (list_all (\<lambda>p. sublist p t) ps)"
  by (induction ps) auto

lemma check_names_distinct:
  "asc ''has_doc_number'' \<noteq> asc ''has_source_url''"
  "asc ''has_doc_number'' \<noteq> asc ''is_gov_source''"
  "asc ''has_source_url'' \<noteq> asc ''is_gov_source''"
  "asc ''is_gov_source'' \<noteq> asc ''has_doc_number''"
  "asc ''is_gov_source'' \<noteq> asc ''has_source_url''"
  "asc ''has_source_url'' \<noteq> asc ''has_doc_number''"
  by (simp_all add: asc_def)

lemma policy_result_shape:
  assumes "validate_policy_cross lib policy_data = Inr r"
  shows "\<exists>g b. checks r =
           [(asc ''has_doc_number'', truthy (dict_get policy_data (asc ''doc_number'') (PStr []))),
            (asc ''has_source_url'', truthy (dict_get policy_data (asc ''source_url'') (PStr []))),
            (asc ''is_gov_source'', g),
            (asc ''not_template'', b)]
         \<and> g = (\<exists>s. dict_get policy_data (asc ''source_url'') (PStr []) = PStr s \<and> s \<noteq> []
                  \<and> sublist (asc ''gov.cn'') (str_lower lib s))
         \<and> is_valid r = (truthy (dict_get policy_data (asc ''doc_number'') (PStr [])) \<or> g)"
  using assms
  by (auto simp: validate_policy_cross_def Let_def split: sum.splits if_splits pyval.splits)

lemma policy_returns:
  assumes "dict_get policy_data (asc ''title'') (PStr []) = PStr t"
    and "dict_get policy_data (asc ''source_url'') (PStr []) = PStr u"
  shows "\<exists>r. validate_policy_cross lib policy_data = Inr r"
  using assms by (auto simp: validate_policy_cross_def Let_def all_in_str)

text \<open>
  Claim C4. Whenever \<open>validate_policy_cross\<close> returns, \<open>has_doc_number\<close> is the
  truth value of the document number, \<open>is_gov_source\<close> says that the source URL is
  a non-empty string whose lower-case form contains \<open>gov.cn\<close>, and \<open>is_valid\<close> holds
  exactly when one of these two checks holds: the checks \<open>has_source_url\<close> and
  \<open>not_template\<close> do not enter. A policy with neither a document number nor a
  source URL is invalid. The function returns whenever the title and the source URL
  are strings or absent.
\<close>

theorem policy_valid_iff:
  "(\<forall>r. validate_policy_cross lib policy_data = Inr r \<longrightarrow>
      map_of (checks r) (asc ''has_doc_number'')
        = Some (truthy (dict_get policy_data (asc ''doc_number'') (PStr [])))
      \<and> map_of (checks r) (asc ''is_gov_source'')
        = Some (\<exists>s. dict_get policy_data (asc ''source_url'') (PStr []) = PStr s \<and> s \<noteq> []
                  \<and> sublist (asc ''gov.cn'') (str_lower lib s))
      \<and> (is_valid r \<longleftrightarrow>
           map_of (checks r) (asc ''has_doc_number'') = Some True
           \<or> map_of (checks r) (asc ''is_gov_source'') = Some True)
      \<and> (\<not> truthy (dict_get policy_data (asc ''doc_number'') (PStr []))
           \<and> \<not> truthy (dict_get policy_data (asc ''source_url'') (PStr []))
         \<longrightarrow> \<not> is_valid r))
   \<and> ((\<exists>t. dict_get policy_data (asc ''title'') (PStr []) = PStr t)
        \<and> (\<exists>u. dict_get policy_data (asc ''source_url'') (PStr []) = PStr u)
      \<longrightarrow> (\<exists>r. validate_policy_cross lib policy_data = Inr r))"
proof -
  have a: "\<forall>r. validate_policy_cross lib policy_data = Inr r \<longrightarrow>
      map_of (checks r) (asc ''has_doc_number'')
        = Some (truthy (dict_get policy_data (asc ''doc_number'') (PStr [])))
      \<and> map_of (checks r) (asc ''is_gov_source'')
        = Some (\<exists>s. dict_get policy_data (asc ''source_url'') (PStr []) = PStr s \<and> s \<noteq> []
                  \<and> sublist (asc ''gov.cn'') (str_lower lib s))
      \<and> (is_valid r \<longleftrightarrow>
           map_of (checks r) (asc ''has_doc_number'') = Some True
           \<or> map_of (checks r) (asc ''is_gov_source'') = Some True)
      \<and> (\<not> truthy (dict_get policy_data (asc ''doc_number'') (PStr []))
           \<and> \<not> truthy (dict_get policy_data (asc ''source_url'') (PStr []))
         \<longrightarrow> \<not> is_valid r)"
  proof (intro allI impI)
    fix r assume r: "validate_policy_cross lib policy_data = Inr r"
    from policy_result_shape [OF r] obtain g b where
      ck: "checks r =
           [(asc ''has_doc_number'', truthy (dict_get policy_data (asc ''doc_number'') (PStr []))),
            (asc ''has_source_url'', truthy (dict_get policy_data (asc ''source_url'') (PStr []))),
            (asc ''is_gov_source'', g),
            (asc ''not_template'', b)]"
      and g: "g = (\<exists>s. dict_get policy_data (asc ''source_url'') (PStr []) = PStr s \<and> s \<noteq> []
                  \<and> sublist (asc ''gov.cn'') (str_lower lib s))"
      and iv: "is_valid r = (truthy (dict_get policy_data (asc ''doc_number'') (PStr [])) \<or> g)"
      by blast
    have m1: "map_of (checks r) (asc ''has_doc_number'')
        = Some (truthy (dict_get policy_data (asc ''doc_number'') (PStr [])))"
      by (simp add: ck)
    have m2: "map_of (checks r) (asc ''is_gov_source'') = Some g"
      by (simp add: ck check_names_distinct)
    have nt: "\<not> truthy (dict_get policy_data (asc ''source_url'') (PStr [])) \<longrightarrow> \<not> g"
      using g by auto
    show "map_of (checks r) (asc ''has_doc_number'')
        = Some (truthy (dict_get policy_data (asc ''doc_number'') (PStr [])))
      \<and> map_of (checks r) (asc ''is_gov_source'')
        = Some (\<exists>s. dict_get policy_data (asc ''source_url'') (PStr []) = PStr s \<and> s \<noteq> []
                  \<and> sublist (asc ''gov.cn'') (str_lower lib s))
      \<and> (is_valid r \<longleftrightarrow>
           map_of (checks r) (asc ''has_doc_number'') = Some True
           \<or> map_of (checks r) (asc ''is_gov_source'') = Some True)
      \<and> (\<not> truthy (dict_get policy_data (asc ''doc_number'') (PStr []))
           \<and> \<not> truthy (dict_get policy_data (asc ''source_url'') (PStr []))
         \<longrightarrow> \<not> is_valid r)"
      unfolding m1 m2 using g iv nt by auto
  qed
  have b: "(\<exists>t. dict_get policy_data (asc ''title'') (PStr []) = PStr t)
        \<and> (\<exists>u. dict_get policy_data (asc ''source_url'') (PStr []) = PStr u)
      \<longrightarrow> (\<exists>r. validate_policy_cross lib policy_data = Inr r)"
    using policy_returns by blast
  from a b show ?thesis by blast
qed

lemma policy_doc_fields:
  "dict_get demo_policy_doc (asc ''title'') (PStr []) = PStr ([20851, 20110, 20419, 36827] @ asc '' 2021'')"
  "dict_get demo_policy_doc (asc ''doc_number'') (PStr []) = PStr (asc ''2021-15'')"
  "dict_get demo_policy_doc (asc ''source_url'') (PStr []) = PStr []"
  by (simp_all add: demo_policy_doc_def dict_get_def asc_def)

theorem policy_valid_iff_witness:
  "\<exists>r. validate_policy_cross ascii_lib demo_policy_doc = Inr r \<and> is_valid r
     \<and> map_of (checks r) (asc ''has_doc_number'') = Some True
     \<and> map_of (checks r) (asc ''is_gov_source'') = Some False"
proof -
  note t = policy_valid_iff [of ascii_lib demo_policy_doc]
  from t policy_doc_fields obtain r where r: "validate_policy_cross ascii_lib demo_policy_doc = Inr r"
    by blast
  from t r have m1: "map_of (checks r) (asc ''has_doc_number'')
        = Some (truthy (dict_get demo_policy_doc (asc ''doc_number'') (PStr [])))"
    and m2: "map_of (checks r) (asc ''is_gov_source'')
        = Some (\<exists>s. dict_get demo_policy_doc (asc ''source_url'') (PStr []) = PStr s \<and> s \<noteq> []
                  \<and> sublist (asc ''gov.cn'') (str_lower ascii_lib s))"
    and iv: "is_valid r \<longleftrightarrow>
           map_of (checks r) (asc ''has_doc_number'') = Some True
           \<or> map_of (checks r) (asc ''is_gov_source'') = Some True"
    by blast+
  have d: "truthy (dict_get demo_policy_doc (asc ''doc_number'') (PStr []))"
    by (simp add: policy_doc_fields) (simp add: asc_def)
  have m1': "map_of (checks r) (asc ''has_doc_number'') = Some True"
    using m1 d by simp
  have m2': "map_of (checks r) (asc ''is_gov_source'') = Some False"
    using m2 by (simp add: policy_doc_fields)
  from r iv m1' m2' show ?thesis by blast
qed

lemma policy_path_fields:
  "dict_get demo_policy_path (asc ''title'') (PStr []) = PStr (asc ''Notice'')"
  "dict_get demo_policy_path (asc ''doc_number'') (PStr []) = PStr []"
  "dict_get demo_policy_path (asc ''source_url'') (PStr []) = PStr url_path_gov"
  by (simp_all add: demo_policy_path_def dict_get_def asc_def)

lemma path_gov_contains: "sublist (asc ''gov.cn'') (str_lower lib url_path_gov)"
  by (simp add: lower_path_gov) (simp add: url_path_gov_def asc_def sublist_code)

lemma example_host_not_gov: "\<not> sublist (asc ''gov.cn'') (str_lower lib (asc ''example.com''))"
  by (simp add: str_lower_def asc_def sublist_code)

lemma url_path_gov_nonempty: "url_path_gov \<noteq> []"
  by (simp add: url_path_gov_def asc_def)

text \<open>
  Claim C2. The claim reads \<open>is_gov_source\<close> off the host of the source URL. The
  code tests the whole URL: for the source URL
  \<open>https://example.com/gov.cn/notice.html\<close>, whose host \<open>example.com\<close> does not
  contain \<open>gov.cn\<close>, the check \<open>is_gov_source\<close> is true and the policy is valid.
\<close>

theorem gov_source_path_accepted:
  "urlparse_netloc lib url_path_gov = Inr (asc ''example.com'')
   \<and> \<not> sublist (asc ''gov.cn'') (str_lower lib (asc ''example.com''))
   \<and> (\<exists>r. validate_policy_cross lib demo_policy_path = Inr r
         \<and> map_of (checks r) (asc ''is_gov_source'') = Some True
         \<and> is_valid r)"
proof -
  obtain r where r: "validate_policy_cross lib demo_policy_path = Inr r"
    using policy_returns [OF policy_path_fields(1) policy_path_fields(3)] by blast
  from policy_result_shape [OF r] obtain g where
    g: "g = (\<exists>s. dict_get demo_policy_path (asc ''source_url'') (PStr []) = PStr s \<and> s \<noteq> []
                  \<and> sublist (asc ''gov.cn'') (str_lower lib s))"
    and m: "map_of (checks r) (asc ''is_gov_source'') = Some g"
    and iv: "is_valid r = (truthy (dict_get demo_policy_path (asc ''doc_number'') (PStr [])) \<or> g)"
    by (auto simp: check_names_distinct)
  have "g"
    unfolding g using path_gov_contains url_path_gov_nonempty
    by (simp add: policy_path_fields)
  then have m': "map_of (checks r) (asc ''is_gov_source'') = Some True" and iv': "is_valid r"
    using m iv by simp_all
  from r m' iv' have "\<exists>r. validate_policy_cross lib demo_policy_path = Inr r
         \<and> map_of (checks r) (asc ''is_gov_source'') = Some True
         \<and> is_valid r"
    by blast
  then show ?thesis
    using netloc_path_gov [of lib] example_host_not_gov [of lib] by simp
qed

section \<open>The guarded call\<close>

lemma verify_passed_iff: "verify_data d = Inr v \<Longrightarrow> passed v = (errors v = [])"
  unfolding verify_data_def Let_def by (auto split: sum.splits)

lemma verify_level_passed:
  "verify_data d = Inr v \<Longrightarrow> passed v \<Longrightarrow> level v = asc ''A'' \<or> level v = asc ''CONDITIONAL''"
  unfolding verify_data_def Let_def by (auto split: sum.splits if_splits)

lemma verify_demo_template:
  "verify_data demo_template =
     Inr \<lparr>passed = False, level = asc ''REJECTED'',
           errors = [template_msg [25991, 21019, 21697, 29260]],
           warnings = [no_source_msg]\<rparr>"
  by (simp add: demo_template_def verify_defs eval_defs)

lemma verify_demo_null_name: "verify_data demo_null_name = Inl TypeError"
  by (simp add: demo_null_name_def verify_defs eval_defs)

lemma verify_demo_tagged:
  "verify_data demo_tagged =
     Inr \<lparr>passed = True, level = asc ''A'', errors = [], warnings = []\<rparr>"
  by (simp add: demo_tagged_def verify_defs eval_defs)

text \<open>
  Claim C5, as amended. Let the wrapped operation return a dictionary whose
  verification yields a verdict with errors, so of level \<open>REJECTED\<close>. In strict
  mode, the mode \<open>__init__\<close> sets, the guarded call raises the error that carries
  the whole error list and the first 200 characters at most of the serialised
  record, so no record is returned. In permissive mode it returns the record with
  \<open>_verification\<close> set to the status \<open>PENDING\<close>, the errors and the timestamp. In
  permissive mode the guarded call of an operation that returns a dictionary fails
  exactly when \<open>verify_data\<close> itself raises, with the same exception.
\<close>

theorem guarded_call_outcomes:
  assumes "func args = Inr (PDict d)"
  shows "(\<forall>v. verify_data d = Inr v \<and> errors v \<noteq> [] \<longrightarrow>
            level v = asc ''REJECTED''
          \<and> (strict_mode self \<longrightarrow>
               validate_required self now func args
                 = Inl (VerificationFailed (errors v) (take 200 (json_dumps (PDict d))))
               \<and> length (take 200 (json_dumps (PDict d))) \<le> 200)
          \<and> (\<not> strict_mode self \<longrightarrow>
               validate_required self now func args
                 = Inr (PDict (AList.update (asc ''_verification'')
                         (PDict [(asc ''status'', PStr (asc ''PENDING'')),
                                 (asc ''errors'', PList (map PStr (errors v))),
                                 (asc ''timestamp'', PStr (isoformat now))]) d))))
       \<and> (\<not> strict_mode self \<longrightarrow>
            (\<forall>e. validate_required self now func args = Inl e \<longleftrightarrow> verify_data d = Inl e))
       \<and> strict_mode init_middleware"
proof -
  have a: "\<forall>v. verify_data d = Inr v \<and> errors v \<noteq> [] \<longrightarrow>
            level v = asc ''REJECTED''
          \<and> (strict_mode self \<longrightarrow>
               validate_required self now func args
                 = Inl (VerificationFailed (errors v) (take 200 (json_dumps (PDict d))))
               \<and> length (take 200 (json_dumps (PDict d))) \<le> 200)
          \<and> (\<not> strict_mode self \<longrightarrow>
               validate_required self now func args
                 = Inr (PDict (AList.update (asc ''_verification'')
                         (PDict [(asc ''status'', PStr (asc ''PENDING'')),
                                 (asc ''errors'', PList (map PStr (errors v))),
                                 (asc ''timestamp'', PStr (isoformat now))]) d)))"
  proof (intro allI impI)
    fix v assume v: "verify_data d = Inr v \<and> errors v \<noteq> []"
    then have np: "\<not> passed v" using verify_passed_iff by blast
    have lv: "level v = asc ''REJECTED''"
      using v unfolding verify_data_def Let_def by (auto split: sum.splits)
    have len: "length (take 200 (json_dumps (PDict d))) \<le> 200"
      by (simp del: json_dumps.simps)
    show "level v = asc ''REJECTED''
          \<and> (strict_mode self \<longrightarrow>
               validate_required self now func args
                 = Inl (VerificationFailed (errors v) (take 200 (json_dumps (PDict d))))
               \<and> length (take 200 (json_dumps (PDict d))) \<le> 200)
          \<and> (\<not> strict_mode self \<longrightarrow>
               validate_required self now func args
                 = Inr (PDict (AList.update (asc ''_verification'')
                         (PDict [(asc ''status'', PStr (asc ''PENDING'')),
                                 (asc ''errors'', PList (map PStr (errors v))),
                                 (asc ''timestamp'', PStr (isoformat now))]) d)))"
      using assms v np lv len
      by (simp add: validate_required_def pending_tag_def del: json_dumps.simps)
  qed
  have b: "\<not> strict_mode self \<longrightarrow>
            (\<forall>e. validate_required self now func args = Inl e \<longleftrightarrow> verify_data d = Inl e)"
    using assms by (auto simp: validate_required_def split: sum.splits)
  have c: "strict_mode init_middleware"
    by (simp add: init_middleware_def)
  from a b c show ?thesis by blast
qed

theorem guarded_call_outcomes_witness:
  "validate_required init_middleware demo_now (returning (PDict demo_template)) ()
     = Inl (VerificationFailed [template_msg [25991, 21019, 21697, 29260]]
              (take 200 (json_dumps (PDict demo_template))))
   \<and> validate_required permissive demo_now (returning (PDict demo_template)) ()
     = Inr (PDict (AList.update (asc ''_verification'')
              (PDict [(asc ''status'', PStr (asc ''PENDING'')),
                      (asc ''errors'', PList [PStr (template_msg [25991, 21019, 21697, 29260])]),
                      (asc ''timestamp'', PStr (isoformat demo_now))]) demo_template))"
proof -
  have f: "returning (PDict demo_template) () = Inr (PDict demo_template)"
    by (simp add: returning_def)
  have s: "strict_mode init_middleware" "\<not> strict_mode permissive"
    by (simp_all add: init_middleware_def permissive_def)
  show ?thesis
    using guarded_call_outcomes [where func = "returning (PDict demo_template)" and args = "()"
        and d = demo_template and self = init_middleware and now = demo_now, OF f]
      guarded_call_outcomes [where func = "returning (PDict demo_template)" and args = "()"
        and d = demo_template and self = permissive and now = demo_now, OF f]
      s verify_demo_template
    by (simp del: json_dumps.simps)
qed

text \<open>
  The claim as stated says no call fails in permissive mode. On a record whose
  name is \<open>None\<close> the template scan of \<open>verify_data\<close> raises \<open>TypeError\<close>, and the
  guarded call fails with it in permissive mode too.
\<close>

theorem permissive_call_fails_counterexample:
  "validate_required permissive demo_now (returning (PDict demo_null_name)) () = Inl TypeError"
  by (simp add: validate_required_def returning_def verify_demo_null_name)

lemma update_other_keys: "k \<noteq> k' \<Longrightarrow> map_of (AList.update k' v d) k = map_of d k"
  by (simp add: update_conv')

lemma update_same_key: "map_of (AList.update k v d) k = Some v"
  by (simp add: update_conv')

lemma update_keys: "fst ` set (AList.update k v d) = insert k (fst ` set d)"
  by (induction d) auto

text \<open>
  Claim C8, as amended. Whenever the guarded call returns for a dictionary, the
  result is that dictionary with the key \<open>_verification\<close> set to the tag built from
  the verdict: every other key maps to the value it had, the keys are those of the
  record and \<open>_verification\<close>, and the tag is stored in the record itself, over any
  value the record had under that key.
\<close>

theorem guarded_call_frame:
  assumes "func args = Inr (PDict d)"
    and "validate_required self now func args = Inr res"
  shows "\<exists>v tag. verify_data d = Inr v
           \<and> (tag = verified_tag v now \<or> tag = pending_tag v now)
           \<and> res = PDict (AList.update (asc ''_verification'') tag d)
           \<and> (\<forall>k. k \<noteq> asc ''_verification'' \<longrightarrow>
                 map_of (AList.update (asc ''_verification'') tag d) k = map_of d k)
           \<and> map_of (AList.update (asc ''_verification'') tag d) (asc ''_verification'') = Some tag
           \<and> fst ` set (AList.update (asc ''_verification'') tag d)
               = insert (asc ''_verification'') (fst ` set d)"
proof -
  from assms obtain v tag where v: "verify_data d = Inr v"
    and tag: "tag = verified_tag v now \<or> tag = pending_tag v now"
    and res: "res = PDict (AList.update (asc ''_verification'') tag d)"
    by (auto simp: validate_required_def split: sum.splits if_splits)
  show ?thesis
    using v tag res
    by (intro exI [of _ v] exI [of _ tag])
       (simp add: update_other_keys update_same_key update_keys)
qed

theorem guarded_call_frame_witness:
  "\<exists>v tag. verify_data demo_kpi = Inr v
     \<and> validate_required init_middleware demo_now (returning (PDict demo_kpi)) ()
         = Inr (PDict (AList.update (asc ''_verification'') tag demo_kpi))
     \<and> map_of (AList.update (asc ''_verification'') tag demo_kpi) (asc ''name'')
         = map_of demo_kpi (asc ''name'')
     \<and> map_of (AList.update (asc ''_verification'') tag demo_kpi) (asc ''_verification'')
         = Some tag"
proof -
  define res where "res = PDict (AList.update (asc ''_verification'')
               (verified_tag \<lparr>passed = True, level = asc ''CONDITIONAL'', errors = [],
                   warnings = [kpi_msg (asc ''revenue'')]\<rparr> demo_now) demo_kpi)"
  have f: "returning (PDict demo_kpi) () = Inr (PDict demo_kpi)"
    by (simp add: returning_def)
  have r: "validate_required init_middleware demo_now (returning (PDict demo_kpi)) () = Inr res"
    by (simp add: validate_required_def f verify_demo_kpi res_def)
  have n: "asc ''name'' \<noteq> asc ''_verification''"
    by (simp add: asc_def)
  from guarded_call_frame [where func = "returning (PDict demo_kpi)" and args = "()"
      and d = demo_kpi and self = init_middleware and now = demo_now, OF f r]
  obtain v tag where a: "verify_data demo_kpi = Inr v"
    and b: "res = PDict (AList.update (asc ''_verification'') tag demo_kpi)"
    and c: "\<forall>k. k \<noteq> asc ''_verification'' \<longrightarrow>
                 map_of (AList.update (asc ''_verification'') tag demo_kpi) k = map_of demo_kpi k"
    and d: "map_of (AList.update (asc ''_verification'') tag demo_kpi) (asc ''_verification'')
              = Some tag"
    by blast
  from c n have c': "map_of (AList.update (asc ''_verification'') tag demo_kpi) (asc ''name'')
         = map_of demo_kpi (asc ''name'')"
    by blast
  from a r b c' d show ?thesis by blast
qed

text \<open>
  The claim as stated covers every key of the record. A record that has a
  \<open>_verification\<close> entry of its own loses it: the wrapper stores the tag under
  that key.
\<close>

theorem metadata_overwrites_counterexample:
  "\<exists>d'. validate_required init_middleware demo_now (returning (PDict demo_tagged)) ()
           = Inr (PDict d')
     \<and> map_of demo_tagged (asc ''_verification'') = Some (PStr (asc ''old''))
     \<and> map_of d' (asc ''_verification'') \<noteq> Some (PStr (asc ''old''))"
proof -
  have r: "validate_required init_middleware demo_now (returning (PDict demo_tagged)) ()
      = Inr (PDict (AList.update (asc ''_verification'')
               (verified_tag \<lparr>passed = True, level = asc ''A'', errors = [], warnings = []\<rparr>
                  demo_now) demo_tagged))"
    by (simp add: validate_required_def returning_def verify_demo_tagged)
  have o: "map_of demo_tagged (asc ''_verification'') = Some (PStr (asc ''old''))"
    by (simp add: demo_tagged_def asc_def)
  have n: "map_of (AList.update (asc ''_verification'')
               (verified_tag \<lparr>passed = True, level = asc ''A'', errors = [], warnings = []\<rparr>
                  demo_now) demo_tagged) (asc ''_verification'') \<noteq> Some (PStr (asc ''old''))"
    by (simp add: update_same_key verified_tag_def)
  from r o n show ?thesis by blast
qed

section \<open>Verification of an accepted record\<close>

lemma sublist_cut:
  assumes "c \<notin> set w" and "w \<noteq> []"
  shows "sublist w (xs @ c # ys) \<longleftrightarrow> sublist w xs \<or> sublist w ys"
proof
  assume "sublist w (xs @ c # ys)"
  then consider "sublist w xs" | "sublist w (c # ys)"
    | xs1 xs2 where "w = xs1 @ xs2" "suffix xs1 xs" "prefix xs2 (c # ys)"
    unfolding sublist_append by blast
  then show "sublist w xs \<or> sublist w ys"
  proof cases
    case 1
    then show ?thesis by simp
  next
    case 2
    then have "prefix w (c # ys) \<or> sublist w ys" by (simp add: sublist_Cons_right)
    moreover have "\<not> prefix w (c # ys)"
      using assms by (cases w) auto
    ultimately show ?thesis by simp
  next
    case 3
    show ?thesis
    proof (cases xs2)
      case Nil
      with 3 show ?thesis by auto
    next
      case (Cons a list)
      with 3 have "a = c" by simp
      with Cons 3 assms show ?thesis by simp
    qed
  qed
next
  assume "sublist w xs \<or> sublist w ys"
  then show "sublist w (xs @ c # ys)"
    by (auto simp: sublist_append sublist_Cons_right)
qed

lemma dec_digits: "\<forall>c\<in>set (dec n). 48 \<le> c \<and> c \<le> 57"
proof (induction n rule: dec.induct)
  case (1 n)
  show ?case
  proof (cases "n < 10")
    case True
    then show ?thesis by (simp add: dec.simps [of n])
  next
    case False
    have "n mod 10 < 10" by simp
    then have "48 + n mod 10 \<le> 57" by linarith
    with 1 False show ?thesis by (simp add: dec.simps [of n])
  qed
qed

lemma zfill_iso: "\<forall>c\<in>set (zfill k (dec n)). iso_char c"
  using dec_digits [of n] by (auto simp: zfill_def iso_char_def)

lemma isoformat_chars: "\<forall>c\<in>set (isoformat t). iso_char c"
  using zfill_iso by (auto simp: isoformat_def) (simp_all add: iso_char_def)

lemma escape_iso_char: "iso_char c \<Longrightarrow> escape_char c = [c]"
  by (auto simp: iso_char_def escape_char_def)

lemma escape_iso: "\<forall>c\<in>set s. iso_char c \<Longrightarrow> concat (map escape_char s) = s"
  by (induction s) (auto simp: escape_iso_char)

lemma escape_isoformat: "concat (map escape_char (isoformat t)) = isoformat t"
  by (rule escape_iso [OF isoformat_chars])

lemma not_sublist_isoformat:
  assumes "\<not> iso_char x"
  shows "\<not> sublist (x # xs) (isoformat t)"
proof
  assume "sublist (x # xs) (isoformat t)"
  then have "x \<in> set (isoformat t)"
    using set_mono_sublist by fastforce
  with isoformat_chars assms show False by blast
qed

lemma not_sublist_isoformat_eq:
  "\<not> iso_char x \<Longrightarrow> sublist (x # xs) (isoformat t) = False"
  using not_sublist_isoformat by simp

lemma tag_clean:
  assumes "w \<in> set scan_words"
    and "level v = asc ''A'' \<or> level v = asc ''CONDITIONAL''"
    and "c = 123 \<or> c = 32"
  shows "\<not> sublist w (c # dumps_pairs [(asc ''_verification'', verified_tag v now)] @ [125])"
  using assms unfolding scan_words_def vague_words_def mark_laiyuan_def
  by (auto simp: verified_tag_def encode_basestring_def escape_char_def escape_isoformat asc_def
        sublist_code sublist_cut not_sublist_isoformat_eq iso_char_def)

lemma scan_words_plain:
  assumes "w \<in> set scan_words"
  shows "w \<noteq> []" "44 \<notin> set w" "125 \<notin> set w" "\<not> sublist w [123, 125]" "\<not> sublist w [123]"
  using assms unfolding scan_words_def vague_words_def mark_laiyuan_def
  by (auto simp: asc_def sublist_code)

lemma dumps_pairs_snoc:
  "d \<noteq> [] \<Longrightarrow> dumps_pairs (d @ [(k, x)]) = dumps_pairs d @ [44, 32] @ dumps_pairs [(k, x)]"
proof (induction d)
  case Nil
  then show ?case by simp
next
  case (Cons p d)
  obtain k' x' where p: "p = (k', x')" by (cases p)
  show ?case
  proof (cases d)
    case Nil
    then show ?thesis by (simp add: p asc_def)
  next
    case (Cons q d')
    with Cons.IH have "dumps_pairs (d @ [(k, x)]) = dumps_pairs d @ [44, 32] @ dumps_pairs [(k, x)]"
      by simp
    moreover obtain k'' x'' r where "d @ [(k, x)] = (k'', x'') # r" "d = (k'', x'') # d'"
      using Cons by (cases q) auto
    ultimately show ?thesis
      by (simp add: p asc_def)
  qed
qed

lemma update_absent:
  "k \<notin> fst ` set d \<Longrightarrow> AList.update k v d = d @ [(k, v)]"
  by (induction d) auto

lemma tagged_text_words:
  assumes w: "w \<in> set scan_words"
    and lv: "level v = asc ''A'' \<or> level v = asc ''CONDITIONAL''"
  shows "sublist w (json_dumps (PDict (d @ [(asc ''_verification'', verified_tag v now)])))
         = sublist w (json_dumps (PDict d))"
proof (cases "d = []")
  case True
  have n: "\<not> sublist w (123 # dumps_pairs [(asc ''_verification'', verified_tag v now)] @ [125])"
    by (rule tag_clean [OF w lv]) simp
  have l: "json_dumps (PDict ([] @ [(asc ''_verification'', verified_tag v now)]))
             = 123 # dumps_pairs [(asc ''_verification'', verified_tag v now)] @ [125]"
    by (simp add: asc_def del: dumps_pairs.simps)
  have r: "json_dumps (PDict []) = [123, 125]"
    by (simp add: asc_def)
  show ?thesis
    unfolding True l r using n scan_words_plain(4) [OF w] by simp
next
  case False
  let ?T = "dumps_pairs [(asc ''_verification'', verified_tag v now)]"
  have n: "\<not> sublist w (32 # ?T @ [125])"
    by (rule tag_clean [OF w lv]) simp
  have l: "json_dumps (PDict (d @ [(asc ''_verification'', verified_tag v now)]))
             = (123 # dumps_pairs d) @ 44 # (32 # ?T @ [125])"
    using False by (simp add: dumps_pairs_snoc asc_def del: dumps_pairs.simps)
  have r: "json_dumps (PDict d) = (123 # dumps_pairs d) @ 125 # []"
    by (simp add: asc_def)
  have "sublist w (json_dumps (PDict (d @ [(asc ''_verification'', verified_tag v now)])))
          = sublist w (123 # dumps_pairs d)"
    unfolding l using n by (simp only: sublist_cut [OF scan_words_plain(2,1) [OF w]]) simp
  moreover have "sublist w (json_dumps (PDict d)) = sublist w (123 # dumps_pairs d)"
    unfolding r using scan_words_plain(1) [OF w]
    by (simp only: sublist_cut [OF scan_words_plain(3,1) [OF w]]) simp
  ultimately show ?thesis by simp
qed

lemma scan_vague_cong:
  "\<forall>w\<in>set ws. sublist w s' = sublist w s \<Longrightarrow> scan_vague s' ws acc = scan_vague s ws acc"
  by (induction ws arbitrary: acc) auto

lemma scan_kpi_cong:
  assumes "sublist mark_laiyuan s' = sublist mark_laiyuan s"
    and "sublist (asc ''source'') s' = sublist (asc ''source'') s"
  shows "scan_kpi s' kpi acc = scan_kpi s kpi acc"
  using assms by (induction kpi arbitrary: acc) (auto split: pyval.splits)

lemma check_hallucination_cong:
  assumes "map_of d' (asc ''name'') = map_of d (asc ''name'')"
    and "map_of d' (asc ''title'') = map_of d (asc ''title'')"
    and "map_of d' (asc ''kpi'') = map_of d (asc ''kpi'')"
    and "\<forall>w\<in>set scan_words. sublist w (json_dumps (PDict d')) = sublist w (json_dumps (PDict d))"
  shows "check_hallucination d' = check_hallucination d"
proof -
  have v: "scan_vague (json_dumps (PDict d')) vague_words []
             = scan_vague (json_dumps (PDict d)) vague_words []"
    using assms(4) by (intro scan_vague_cong) (simp add: scan_words_def)
  have k: "\<And>kpi acc. scan_kpi (json_dumps (PDict d')) kpi acc
             = scan_kpi (json_dumps (PDict d)) kpi acc"
    using assms(4) by (intro scan_kpi_cong) (simp_all add: scan_words_def)
  show ?thesis
    unfolding check_hallucination_def Let_def dict_get_def dict_get_none_def has_key_def
      assms(1-3) v k ..
qed

lemma check_required_fields_cong:
  assumes "map_of d' (asc ''name'') = map_of d (asc ''name'')"
    and "map_of d' (asc ''title'') = map_of d (asc ''title'')"
    and "map_of d' (asc ''category'') = map_of d (asc ''category'')"
    and "map_of d' (asc ''region'') = map_of d (asc ''region'')"
    and "map_of d' (asc ''doc_number'') = map_of d (asc ''doc_number'')"
    and "map_of d' (asc ''source_url'') = map_of d (asc ''source_url'')"
  shows "check_required_fields d' = check_required_fields d"
  unfolding check_required_fields_def Let_def dict_get_def dict_get_none_def has_key_def
    scan_required.simps assms ..

lemma check_sources_cong:
  assumes "map_of d' (asc ''source_url'') = map_of d (asc ''source_url'')"
    and "map_of d' (asc ''sources'') = map_of d (asc ''sources'')"
    and "map_of d' (asc ''type'') = map_of d (asc ''type'')"
    and "map_of d' (asc ''verified'') = map_of d (asc ''verified'')"
  shows "check_sources d' = check_sources d"
  unfolding check_sources_def Let_def dict_get_def dict_get_none_def assms ..

lemma inspected_keys_distinct:
  "asc ''name'' \<noteq> asc ''_verification''" "asc ''title'' \<noteq> asc ''_verification''"
  "asc ''kpi'' \<noteq> asc ''_verification''" "asc ''category'' \<noteq> asc ''_verification''"
  "asc ''region'' \<noteq> asc ''_verification''" "asc ''doc_number'' \<noteq> asc ''_verification''"
  "asc ''source_url'' \<noteq> asc ''_verification''" "asc ''sources'' \<noteq> asc ''_verification''"
  "asc ''type'' \<noteq> asc ''_verification''" "asc ''verified'' \<noteq> asc ''_verification''"
  by (simp_all add: asc_def)

lemma verify_data_tagged:
  assumes "asc ''_verification'' \<notin> fst ` set d"
    and "level v = asc ''A'' \<or> level v = asc ''CONDITIONAL''"
  shows "verify_data (d @ [(asc ''_verification'', verified_tag v now)]) = verify_data d"
proof -
  let ?d' = "d @ [(asc ''_verification'', verified_tag v now)]"
  have e: "?d' = AList.update (asc ''_verification'') (verified_tag v now) d"
    using assms(1) by (simp add: update_absent)
  have m: "\<And>k. k \<noteq> asc ''_verification'' \<Longrightarrow> map_of ?d' k = map_of d k"
    unfolding e by (rule update_other_keys)
  note mk = inspected_keys_distinct [THEN m]
  have w: "\<forall>w\<in>set scan_words. sublist w (json_dumps (PDict ?d')) = sublist w (json_dumps (PDict d))"
    using tagged_text_words [OF _ assms(2)] by blast
  have h: "check_hallucination ?d' = check_hallucination d"
    by (rule check_hallucination_cong [OF mk(1) mk(2) mk(3) w])
  have r: "check_required_fields ?d' = check_required_fields d"
    by (rule check_required_fields_cong [OF mk(1) mk(2) mk(4) mk(5) mk(6) mk(7)])
  have s: "check_sources ?d' = check_sources d"
    by (rule check_sources_cong [OF mk(7) mk(8) mk(9) mk(10)])
  show ?thesis
    unfolding verify_data_def has_key_def h r s mk(1) mk(2) ..
qed

text \<open>
  Claim C9, as amended. Let a record without a \<open>_verification\<close> entry pass
  verification with verdict \<open>v\<close>. The guarded call returns it with the tag
  \<open>VERIFIED\<close>, the level and the timestamp appended, every field of the record
  keeping its value, and \<open>verify_data\<close> on the returned record yields \<open>v\<close> again:
  the same passed flag, level, errors and warnings.
\<close>

theorem verify_idempotent:
  assumes "func args = Inr (PDict d)"
    and "asc ''_verification'' \<notin> fst ` set d"
    and "validate_required self now func args = Inr (PDict d')"
    and "verify_data d = Inr v"
    and "passed v"
  shows "d' = d @ [(asc ''_verification'', verified_tag v now)] \<and> verify_data d' = Inr v"
proof -
  have "d' = AList.update (asc ''_verification'') (verified_tag v now) d"
    using assms(1,3,4,5) by (simp add: validate_required_def)
  then have d': "d' = d @ [(asc ''_verification'', verified_tag v now)]"
    using assms(2) by (simp add: update_absent)
  have lv: "level v = asc ''A'' \<or> level v = asc ''CONDITIONAL''"
    using assms(4,5) by (rule verify_level_passed)
  show ?thesis
    using d' verify_data_tagged [OF assms(2) lv] assms(4) by simp
qed

lemma demo_kpi_untagged: "asc ''_verification'' \<notin> fst ` set demo_kpi"
  by (simp add: demo_kpi_def asc_def)

theorem verify_idempotent_witness:
  "verify_data demo_kpi =
     Inr \<lparr>passed = True, level = asc ''CONDITIONAL'', errors = [],
           warnings = [kpi_msg (asc ''revenue'')]\<rparr>
   \<and> asc ''_verification'' \<notin> fst ` set demo_kpi
   \<and> validate_required init_middleware demo_now (returning (PDict demo_kpi)) ()
       = Inr (PDict (demo_kpi @ [(asc ''_verification'',
               verified_tag \<lparr>passed = True, level = asc ''CONDITIONAL'', errors = [],
                   warnings = [kpi_msg (asc ''revenue'')]\<rparr> demo_now)]))
   \<and> verify_data (demo_kpi @ [(asc ''_verification'',
               verified_tag \<lparr>passed = True, level = asc ''CONDITIONAL'', errors = [],
                   warnings = [kpi_msg (asc ''revenue'')]\<rparr> demo_now)])
       = Inr \<lparr>passed = True, level = asc ''CONDITIONAL'', errors = [],
             warnings = [kpi_msg (asc ''revenue'')]\<rparr>"
proof -
  let ?v = "\<lparr>passed = True, level = asc ''CONDITIONAL'', errors = [],
              warnings = [kpi_msg (asc ''revenue'')]\<rparr>"
  let ?d' = "demo_kpi @ [(asc ''_verification'', verified_tag ?v demo_now)]"
  have f: "returning (PDict demo_kpi) () = Inr (PDict demo_kpi)"
    by (simp add: returning_def)
  have g: "validate_required init_middleware demo_now (returning (PDict demo_kpi)) ()
             = Inr (PDict ?d')"
    by (simp add: validate_required_def f verify_demo_kpi update_absent [OF demo_kpi_untagged])
  have p: "passed ?v" by simp
  from verify_idempotent [where func = "returning (PDict demo_kpi)" and args = "()"
      and d = demo_kpi and self = init_middleware and now = demo_now and d' = ?d' and v = ?v,
      OF f demo_kpi_untagged g verify_demo_kpi p]
  have "verify_data ?d' = Inr ?v" by blast
  with verify_demo_kpi demo_kpi_untagged g show ?thesis by blast
qed

lemma verify_demo_stale:
  "verify_data demo_stale =
     Inr \<lparr>passed = True, level = asc ''A'', errors = [], warnings = []\<rparr>"
  by (simp add: demo_stale_def demo_kpi_def verify_defs eval_defs bad_url_msg_def)

lemma update_last:
  "k \<notin> fst ` set d \<Longrightarrow> AList.update k v (d @ [(k, x)]) = d @ [(k, v)]"
  by (induction d) auto

lemma update_stale:
  "AList.update (asc ''_verification'') x demo_stale = demo_kpi @ [(asc ''_verification'', x)]"
  unfolding demo_stale_def by (rule update_last [OF demo_kpi_untagged])

text \<open>
  The claim as stated covers every accepted record. A record that carries a
  \<open>_verification\<close> entry of an earlier call, whose text holds the source marker
  U+6765 U+6E90, passes with level \<open>A\<close>: the marker silences the KPI warning. The
  guarded call replaces that entry and leaves every other field as it was; on the
  returned record \<open>verify_data\<close> gives level \<open>CONDITIONAL\<close>, with the KPI warning.
\<close>

theorem stale_tag_verdict_counterexample:
  "verify_data demo_stale =
     Inr \<lparr>passed = True, level = asc ''A'', errors = [], warnings = []\<rparr>
   \<and> validate_required init_middleware demo_now (returning (PDict demo_stale)) ()
       = Inr (PDict (demo_kpi @ [(asc ''_verification'',
               verified_tag \<lparr>passed = True, level = asc ''A'', errors = [], warnings = []\<rparr>
                 demo_now)]))
   \<and> verify_data (demo_kpi @ [(asc ''_verification'',
               verified_tag \<lparr>passed = True, level = asc ''A'', errors = [], warnings = []\<rparr>
                 demo_now)])
       = Inr \<lparr>passed = True, level = asc ''CONDITIONAL'', errors = [],
             warnings = [kpi_msg (asc ''revenue'')]\<rparr>"
proof -
  let ?v = "\<lparr>passed = True, level = asc ''A'', errors = [], warnings = []\<rparr>"
  have g: "validate_required init_middleware demo_now (returning (PDict demo_stale)) ()
       = Inr (PDict (demo_kpi @ [(asc ''_verification'', verified_tag ?v demo_now)]))"
    by (simp add: validate_required_def returning_def verify_demo_stale update_stale)
  have lv: "level ?v = asc ''A'' \<or> level ?v = asc ''CONDITIONAL''" by simp
  have h: "verify_data (demo_kpi @ [(asc ''_verification'', verified_tag ?v demo_now)])
       = Inr \<lparr>passed = True, level = asc ''CONDITIONAL'', errors = [],
             warnings = [kpi_msg (asc ''revenue'')]\<rparr>"
    using verify_data_tagged [OF demo_kpi_untagged lv] verify_demo_kpi by simp
  from verify_demo_stale g h show ?thesis by blast
qed

end
